theory Spec2Isabelle
  imports Main "HOL-Library.Sublist"
begin

section \<open>Strings as byte sequences\<close>

text \<open>
  A Go \<open>string\<close> and a \<open>[]byte\<close> are sequences of bytes; \<^typ>\<open>string\<close> is a list of 8-bit
  characters, so a document is modelled byte for byte. The parser uses three functions of
  the Go standard library on a document: \<open>strings.Split\<close>, \<open>strings.TrimLeftFunc\<close> with
  \<open>unicode.IsSpace\<close>, and \<open>strings.HasPrefix\<close>. They are written out below with the
  behaviour the Go library documents, UTF-8 decoding included, since \<open>TrimLeftFunc\<close> walks
  the string rune by rune.
\<close>

text \<open>
  \<open>strings.Split(s, sep)\<close> for a separator of one byte, which is how \<open>isEmptyYAML\<close> calls it
  (\<open>sep = "\n"\<close>): the pieces between the separators, always at least one piece.
\<close>

fun Split :: "string \<Rightarrow> char \<Rightarrow> string list" where
  "Split [] sep = [[]]"
| "Split (c # cs) sep =
     (if c = sep then [] # Split cs sep
      else (case Split cs sep of
              [] \<Rightarrow> [[c]]
            | l # ls \<Rightarrow> (c # l) # ls))"

definition RuneError :: nat where
  "RuneError = 0xFFFD"

text \<open>
  \<open>utf8.DecodeRuneInString\<close>: the first rune of the string and its width in bytes. An
  invalid or truncated encoding is \<open>RuneError\<close> of width 1, the empty string is
  \<open>RuneError\<close> of width 0. The library's table \<open>first\<close> and its \<open>acceptRanges\<close> are the
  comparisons on the leading byte.
\<close>

fun DecodeRuneInString :: "string \<Rightarrow> nat \<times> nat" where
  "DecodeRuneInString [] = (RuneError, 0)"
| "DecodeRuneInString (c0 # cs) =
     (let s0 = (of_char c0 :: nat) in
      if s0 < 0x80 then (s0, 1)
      else if s0 < 0xC2 \<or> 0xF4 < s0 then (RuneError, 1)
      else
        let sz = (if s0 < 0xE0 then 2 else if s0 < 0xF0 then 3 else 4 :: nat);
            lo = (if s0 = 0xE0 then 0xA0 else if s0 = 0xF0 then 0x90 else 0x80 :: nat);
            hi = (if s0 = 0xED then 0x9F else if s0 = 0xF4 then 0x8F else 0xBF :: nat)
        in
        if length (c0 # cs) < sz then (RuneError, 1)
        else
          let s1 = (of_char (cs ! 0) :: nat) in
          if s1 < lo \<or> hi < s1 then (RuneError, 1)
          else if sz \<le> 2 then ((s0 mod 32) * 64 + s1 mod 64, 2)
          else
            let s2 = (of_char (cs ! 1) :: nat) in
            if s2 < 0x80 \<or> 0xBF < s2 then (RuneError, 1)
            else if sz \<le> 3 then ((s0 mod 16) * 4096 + (s1 mod 64) * 64 + s2 mod 64, 3)
            else
              let s3 = (of_char (cs ! 2) :: nat) in
              if s3 < 0x80 \<or> 0xBF < s3 then (RuneError, 1)
              else ((s0 mod 8) * 262144 + (s1 mod 64) * 4096 + (s2 mod 64) * 64
                      + s3 mod 64, 4))"

text \<open>
  \<open>unicode.IsSpace\<close>: the Latin-1 spaces by a switch, the other runes by the table
  \<open>White_Space\<close>.
\<close>

definition IsSpace :: "nat \<Rightarrow> bool" where
  "IsSpace r =
     (if r \<le> 0xFF then
        r = 0x09 \<or> r = 0x0A \<or> r = 0x0B \<or> r = 0x0C \<or> r = 0x0D \<or> r = 0x20
          \<or> r = 0x85 \<or> r = 0xA0
      else
        r = 0x1680 \<or> (0x2000 \<le> r \<and> r \<le> 0x200A) \<or> (0x2028 \<le> r \<and> r \<le> 0x2029)
          \<or> r = 0x202F \<or> r = 0x205F \<or> r = 0x3000)"

text \<open>
  \<open>strings.TrimLeftFunc(s, f)\<close>: the string from its first rune that does not satisfy
  \<open>f\<close> on, the empty string when there is none.
\<close>

function TrimLeftFunc :: "string \<Rightarrow> (nat \<Rightarrow> bool) \<Rightarrow> string" where
  "TrimLeftFunc [] f = []"
| "TrimLeftFunc (c # cs) f =
     (if f (fst (DecodeRuneInString (c # cs)))
      then TrimLeftFunc (drop (snd (DecodeRuneInString (c # cs))) (c # cs)) f
      else c # cs)"
  by pat_completeness auto
termination
proof (relation "measure (\<lambda>(s, f). length s)")
  show "wf (measure (\<lambda>(s, f). length s))" by simp
next
  fix c :: char and cs :: string and f :: "nat \<Rightarrow> bool"
  have "0 < snd (DecodeRuneInString (c # cs))"
    by (simp add: Let_def)
  then show "((drop (snd (DecodeRuneInString (c # cs))) (c # cs), f), (c # cs, f))
               \<in> measure (\<lambda>(s, f). length s)"
    by simp
qed

definition HasPrefix :: "string \<Rightarrow> string \<Rightarrow> bool" where
  "HasPrefix s p = prefix p s"

section \<open>The blank-document filter\<close>

text \<open>
  The body of the \<open>for ... range\<close> loop of \<open>isEmptyYAML\<close>, over the lines still to be
  looked at: the first line that is none of the four blank forms returns \<open>false\<close>.
\<close>

fun isEmptyYAML_lines :: "string list \<Rightarrow> bool" where
  "isEmptyYAML_lines [] = True"
| "isEmptyYAML_lines (line # rest) =
     (let trimmed = TrimLeftFunc line IsSpace in
      if trimmed \<noteq> '''' \<and> trimmed \<noteq> ''---'' \<and> trimmed \<noteq> ''...''
           \<and> \<not> HasPrefix trimmed ''#''
      then False
      else isEmptyYAML_lines rest)"

definition isEmptyYAML :: "string \<Rightarrow> bool" where
  "isEmptyYAML y = isEmptyYAML_lines (Split y (CHR 0x0A))"

section \<open>Errors\<close>

text \<open>
  A Go \<open>error\<close> is a value; \<open>nil\<close> is \<^term>\<open>None\<close> of \<^typ>\<open>'a option\<close>. The parser tells four
  kinds of error apart: \<open>io.EOF\<close>, the decoder's \<open>notRegisteredErr\<close> (the kind is not
  registered in the scheme, with the scheme's message), any other error of the reader or of a
  decoder, and an error wrapped with a message by \<open>errors.Wrapf\<close>.
\<close>

datatype error =
    EOF
  | notRegisteredErr string
  | otherErr string
  | wrapped string error

text \<open>
  Modelled from the spec: \<open>errors.Is\<close> and \<open>errors.Wrapf\<close> of \<open>pkg/errors\<close>, which is not among
  the sources. \<open>Is\<close> looks for the target along the chain of wrapped errors; \<open>Wrapf\<close> wraps
  the error with the formatted message (here the annotation's rendering under \<open>%+v\<close>) and
  keeps a \<open>nil\<close> error \<open>nil\<close>.
\<close>

fun Is :: "error \<Rightarrow> error \<Rightarrow> bool" where
  "Is (wrapped msg e) target = (wrapped msg e = target \<or> Is e target)"
| "Is e target = (e = target)"

fun Wrapf :: "error option \<Rightarrow> string \<Rightarrow> error option" where
  "Wrapf None msg = None"
| "Wrapf (Some e) msg = Some (wrapped msg e)"

text \<open>
  \<open>runtime.IsNotRegisteredError\<close> is a type assertion on the error itself: a wrapped
  error is not one.
\<close>

fun IsNotRegisteredError :: "error \<Rightarrow> bool" where
  "IsNotRegisteredError (notRegisteredErr s) = True"
| "IsNotRegisteredError e = False"

section \<open>The stream, the registries and the package\<close>

text \<open>
  The parser reads its stream through the YAML document reader of the Kubernetes library,
  one \<open>Read()\<close> at a time. A stream is therefore the finite sequence of results its
  successive \<open>Read()\<close> calls give, each a document and an error (or \<open>nil\<close>); once the sequence
  is used up the reader is at the end of the stream and \<open>Read()\<close> gives \<open>io.EOF\<close>.
  \<open>annotation\<close> is \<^term>\<open>None\<close> for a plain \<open>io.ReadCloser\<close> and the rendering of \<open>Annotate()\<close>
  for an \<open>AnnotatedReadCloser\<close>.
\<close>

type_synonym read_result = "string \<times> error option"

record reader =
  reads :: "read_result list"
  annotation :: "string option"

text \<open>
  A serializer over a scheme decodes a document to an object or fails: \<open>Decode\<close> is a
  function from the document to \<open>error + object\<close>.
\<close>

type_synonym 'o decoder = "string \<Rightarrow> error + 'o"

record 'o Package =
  meta :: "'o list"
  objects :: "'o list"

definition NewPackage :: "'o Package" where
  "NewPackage = \<lparr>meta = [], objects = []\<rparr>"

definition GetMeta :: "'o Package \<Rightarrow> 'o list" where
  "GetMeta p = meta p"

definition GetObjects :: "'o Package \<Rightarrow> 'o list" where
  "GetObjects p = objects p"

definition annotateErr :: "error option \<Rightarrow> reader \<Rightarrow> error option" where
  "annotateErr err rd =
     (case annotation rd of
        Some anno \<Rightarrow> Wrapf err anno
      | None \<Rightarrow> err)"

section \<open>Parse\<close>

text \<open>
  The calls \<open>Parse\<close> makes to the two serializers are its effect on the registries; the
  model records them, in order, beside the package and the error.
\<close>

datatype call = MetaDecode string | ObjDecode string

fun call_doc :: "call \<Rightarrow> string" where
  "call_doc (MetaDecode d) = d"
| "call_doc (ObjDecode d) = d"

text \<open>
  The \<open>for\<close> loop of \<open>Parse\<close>, over the results the reader has still to give. It returns the
  package, the error and the calls made, each return of the source being one branch.
\<close>

fun parse_loop ::
  "'o decoder \<Rightarrow> 'o decoder \<Rightarrow> reader \<Rightarrow> read_result list \<Rightarrow> 'o Package \<Rightarrow> call list
     \<Rightarrow> 'o Package \<times> error option \<times> call list" where
  "parse_loop dm do rd [] pkg cs = (pkg, None, cs)"
| "parse_loop dm do rd ((content, err) # rest) pkg cs =
     (case err of
        Some e \<Rightarrow> (if \<not> Is e EOF then (pkg, Some e, cs) else (pkg, None, cs))
      | None \<Rightarrow>
          if isEmptyYAML content then parse_loop dm do rd rest pkg cs
          else
            (case dm content of
               Inl e \<Rightarrow>
                 if \<not> IsNotRegisteredError e
                 then (pkg, annotateErr (Some e) rd, cs @ [MetaDecode content])
                 else
                   (case do content of
                      Inl e' \<Rightarrow>
                        (pkg, annotateErr (Some e') rd,
                         cs @ [MetaDecode content, ObjDecode content])
                    | Inr obj \<Rightarrow>
                        parse_loop dm do rd rest (pkg\<lparr>objects := objects pkg @ [obj]\<rparr>)
                          (cs @ [MetaDecode content, ObjDecode content]))
             | Inr m \<Rightarrow>
                 parse_loop dm do rd rest (pkg\<lparr>meta := meta pkg @ [m]\<rparr>)
                   (cs @ [MetaDecode content])))"

text \<open>
  What a call of \<open>Parse\<close> leaves behind: the two values it returns, the decode calls it made,
  and whether the deferred \<open>Close\<close> of the reader ran.
\<close>

record 'o result =
  res_pkg :: "'o Package"
  res_err :: "error option"
  res_calls :: "call list"
  res_closed :: bool

fun Parse :: "'o decoder \<Rightarrow> 'o decoder \<Rightarrow> reader option \<Rightarrow> 'o result" where
  "Parse dm do None =
     \<lparr>res_pkg = NewPackage, res_err = None, res_calls = [], res_closed = False\<rparr>"
| "Parse dm do (Some rd) =
     (case parse_loop dm do rd (reads rd) NewPackage [] of
        (pkg, err, cs) \<Rightarrow>
          \<lparr>res_pkg = pkg, res_err = err, res_calls = cs, res_closed = True\<rparr>)"

section \<open>Backends and their options\<close>

text \<open>
  The four implementations of \<open>Backend\<close> are the variants of one datatype; \<open>'c\<close> is the type
  of Kubernetes clients, \<open>'f\<close> of filesystems and \<open>'k\<close> of filter functions. A
  \<open>BackendOption\<close> mutates the backend it is given through its pointer and returns
  nothing: it is a function from the backend to the backend after the call.
\<close>

record 'c PodLogBackend =
  client :: "'c option"
  name :: string
  namespace :: string

record ('f, 'k) FsBackend =
  fs :: "'f option"
  dir :: string
  skips :: "'k list"

datatype ('c, 'f, 'k) Backend =
    PodLog "'c PodLogBackend"
  | Nop
  | Fs "('f, 'k) FsBackend"
  | Echo string

type_synonym ('c, 'f, 'k) BackendOption = "('c, 'f, 'k) Backend \<Rightarrow> ('c, 'f, 'k) Backend"

fun PodName :: "string \<Rightarrow> ('c, 'f, 'k) BackendOption" where
  "PodName n (PodLog pl) = PodLog (pl\<lparr>name := n\<rparr>)"
| "PodName n p = p"

fun PodNamespace :: "string \<Rightarrow> ('c, 'f, 'k) BackendOption" where
  "PodNamespace ns (PodLog pl) = PodLog (pl\<lparr>namespace := ns\<rparr>)"
| "PodNamespace ns p = p"

fun PodClient :: "'c option \<Rightarrow> ('c, 'f, 'k) BackendOption" where
  "PodClient c (PodLog pl) = PodLog (pl\<lparr>client := c\<rparr>)"
| "PodClient c p = p"

fun FsDir :: "string \<Rightarrow> ('c, 'f, 'k) BackendOption" where
  "FsDir d (Fs f) = Fs (f\<lparr>dir := d\<rparr>)"
| "FsDir d p = p"

fun FsFilters :: "'k list \<Rightarrow> ('c, 'f, 'k) BackendOption" where
  "FsFilters sk (Fs f) = Fs (f\<lparr>skips := sk\<rparr>)"
| "FsFilters sk p = p"

text \<open>The loop \<open>for _, o := range bo { o(p) }\<close> of the constructors and of \<open>Init\<close>.\<close>

fun apply_options ::
  "('c, 'f, 'k) BackendOption list \<Rightarrow> ('c, 'f, 'k) Backend \<Rightarrow> ('c, 'f, 'k) Backend" where
  "apply_options [] p = p"
| "apply_options (opt # bo) p = apply_options bo (opt p)"

definition NewPodLogBackend :: "('c, 'f, 'k) BackendOption list \<Rightarrow> ('c, 'f, 'k) Backend" where
  "NewPodLogBackend bo =
     apply_options bo (PodLog \<lparr>client = None, name = '''', namespace = ''''\<rparr>)"

definition NewNopBackend :: "('c, 'f, 'k) BackendOption list \<Rightarrow> ('c, 'f, 'k) Backend" where
  "NewNopBackend bo = Nop"

definition NewFsBackend ::
  "'f option \<Rightarrow> ('c, 'f, 'k) BackendOption list \<Rightarrow> ('c, 'f, 'k) Backend" where
  "NewFsBackend f bo = apply_options bo (Fs \<lparr>fs = f, dir = '''', skips = []\<rparr>)"

definition NewEchoBackend :: "string \<Rightarrow> ('c, 'f, 'k) Backend" where
  "NewEchoBackend echo = Echo echo"

text \<open>
  \<open>NopBackend.Init\<close> ignores its options and returns \<open>nil, nil\<close>: no reader and no error.
\<close>

definition NopBackend_Init ::
  "('c, 'f, 'k) BackendOption list \<Rightarrow> reader option \<times> error option" where
  "NopBackend_Init bo = (None, None)"

section \<open>What the specification says of a stream\<close>

text \<open>
  The documents \<open>Read()\<close> hands over before its first error (end of stream included), and
  those of them that are not blank.
\<close>

definition read_docs :: "read_result list \<Rightarrow> string list" where
  "read_docs rs = map fst (takeWhile (\<lambda>r. snd r = None) rs)"

definition nonblank_docs :: "read_result list \<Rightarrow> string list" where
  "nonblank_docs rs = filter (\<lambda>d. \<not> isEmptyYAML d) (read_docs rs)"

text \<open>
  The decode policy in the specification's words, as a tagged outcome for one document:
  the metadata registry first; the content registry only after the metadata registry's
  kind-not-recognized failure; every other failure is final.
\<close>

datatype 'o outcome = AsMeta 'o | AsObject 'o | Failed error

definition classify :: "'o decoder \<Rightarrow> 'o decoder \<Rightarrow> string \<Rightarrow> 'o outcome" where
  "classify dm do d =
     (case dm d of
        Inr m \<Rightarrow> AsMeta m
      | Inl e \<Rightarrow>
          if IsNotRegisteredError e
          then (case do d of Inr obj \<Rightarrow> AsObject obj | Inl e' \<Rightarrow> Failed e')
          else Failed e)"

fun is_Failed :: "'o outcome \<Rightarrow> bool" where
  "is_Failed (Failed e) = True"
| "is_Failed x = False"

text \<open>The non-blank documents decoded before the first failing one.\<close>

definition decoded_docs :: "'o decoder \<Rightarrow> 'o decoder \<Rightarrow> read_result list \<Rightarrow> string list" where
  "decoded_docs dm do rs =
     takeWhile (\<lambda>d. \<not> is_Failed (classify dm do d)) (nonblank_docs rs)"

text \<open>
  The registry calls the policy prescribes for a sequence of non-blank documents, in
  order, up to and including those of the first failing document.
\<close>

fun policy_calls :: "'o decoder \<Rightarrow> 'o decoder \<Rightarrow> string list \<Rightarrow> call list" where
  "policy_calls dm do [] = []"
| "policy_calls dm do (d # ds) =
     (case dm d of
        Inr m \<Rightarrow> MetaDecode d # policy_calls dm do ds
      | Inl e \<Rightarrow>
          if IsNotRegisteredError e
          then (case do d of
                  Inr obj \<Rightarrow> MetaDecode d # ObjDecode d # policy_calls dm do ds
                | Inl e' \<Rightarrow> [MetaDecode d, ObjDecode d])
          else [MetaDecode d])"

text \<open>The decoded values an outcome contributes to each of the two lists.\<close>

fun meta_of :: "'o outcome \<Rightarrow> 'o list" where
  "meta_of (AsMeta m) = [m]"
| "meta_of x = []"

fun object_of :: "'o outcome \<Rightarrow> 'o list" where
  "object_of (AsObject obj) = [obj]"
| "object_of x = []"

text \<open>
  The failure of the first non-blank document that fails to decode, and the first non-nil
  error of \<open>Read()\<close>, if any.
\<close>

definition first_decode_failure ::
  "'o decoder \<Rightarrow> 'o decoder \<Rightarrow> read_result list \<Rightarrow> error option" where
  "first_decode_failure dm do rs =
     (case find (\<lambda>d. is_Failed (classify dm do d)) (nonblank_docs rs) of
        None \<Rightarrow> None
      | Some d \<Rightarrow> (case classify dm do d of Failed e \<Rightarrow> Some e | x \<Rightarrow> None))"

definition first_read_error :: "read_result list \<Rightarrow> error option" where
  "first_read_error rs =
     (case find (\<lambda>r. snd r \<noteq> None) rs of
        None \<Rightarrow> None
      | Some r \<Rightarrow> snd r)"

text \<open>
  The error a parse ends with: the failure of the first document that fails to decode,
  passed through \<open>annotateErr\<close>; without one, the first error of \<open>Read()\<close> as it is, the end
  of the stream being no error.
\<close>

definition terminal_error ::
  "'o decoder \<Rightarrow> 'o decoder \<Rightarrow> reader \<Rightarrow> read_result list \<Rightarrow> error option" where
  "terminal_error dm do rd rs =
     (case first_decode_failure dm do rs of
        Some e \<Rightarrow> annotateErr (Some e) rd
      | None \<Rightarrow>
          (case first_read_error rs of
             Some e \<Rightarrow> if Is e EOF then None else Some e
           | None \<Rightarrow> None))"

section \<open>A concrete pair of registries\<close>

text \<open>
  Two small registries over objects named by strings, for evaluating the parser on concrete
  streams: the metadata registry knows the kind \<open>Foo\<close> and finds the document \<open>kind: Foo, bad\<close>
  malformed; the content registry knows the kind \<open>Bar\<close>. Every other document is of a kind
  that neither has registered, and each registry says so in its own words.
\<close>

definition example_meta :: "string decoder" where
  "example_meta d =
     (if d = ''kind: Foo'' then Inr ''Foo''
      else if d = ''kind: Foo, bad'' then Inl (otherErr ''malformed'')
      else Inl (notRegisteredErr ''not registered in the meta scheme''))"

definition example_obj :: "string decoder" where
  "example_obj d =
     (if d = ''kind: Bar'' then Inr ''Bar''
      else Inl (notRegisteredErr ''not registered in the object scheme''))"

text \<open>
  A stream of five documents, the second a comment only, the fourth malformed for the
  metadata registry; with and without a provenance annotation.
\<close>

definition example_reads :: "read_result list" where
  "example_reads =
     [(''kind: Foo'', None), (''# nothing here'', None), (''kind: Bar'', None),
      (''kind: Foo, bad'', None), (''kind: Bar'', None)]"

definition example_reader :: reader where
  "example_reader = \<lparr>reads = example_reads, annotation = None\<rparr>"

definition example_annotated_reader :: reader where
  "example_annotated_reader = \<lparr>reads = example_reads, annotation = Some ''package.yaml''\<rparr>"

section \<open>The loop and its accumulators\<close>

lemma parse_loop_acc:
  "parse_loop dm do rd rs pkg cs =
     (case parse_loop dm do rd rs NewPackage [] of
        (p, e, c) \<Rightarrow>
          (\<lparr>meta = meta pkg @ meta p, objects = objects pkg @ objects p\<rparr>, e, cs @ c))"
proof (induction rs arbitrary: pkg cs)
  case Nil
  show ?case by (simp add: NewPackage_def)
next
  case (Cons r rs)
  obtain content err where r: "r = (content, err)" by (cases r)
  show ?case
  proof (cases err)
    case (Some e)
    with r show ?thesis by (simp add: NewPackage_def)
  next
    case None
    note IH = Cons.IH
    show ?thesis
    proof (cases "isEmptyYAML content")
      case True
      with r None show ?thesis using IH [of pkg cs] by simp
    next
      case False
      show ?thesis
      proof (cases "dm content")
        case (Inr m)
        have a: "parse_loop dm do rd rs (pkg\<lparr>meta := meta pkg @ [m]\<rparr>) (cs @ [MetaDecode content])
                 = (case parse_loop dm do rd rs NewPackage [] of
                      (p, e, c) \<Rightarrow>
                        (\<lparr>meta = meta pkg @ m # meta p, objects = objects pkg @ objects p\<rparr>,
                         e, cs @ MetaDecode content # c))"
          by (subst IH) (simp split: prod.splits)
        have b: "parse_loop dm do rd rs (NewPackage\<lparr>meta := meta NewPackage @ [m]\<rparr>)
                   ([] @ [MetaDecode content])
                 = (case parse_loop dm do rd rs NewPackage [] of
                      (p, e, c) \<Rightarrow>
                        (\<lparr>meta = m # meta p, objects = objects p\<rparr>, e, MetaDecode content # c))"
          by (subst IH) (simp add: NewPackage_def split: prod.splits)
        from r None False Inr a b show ?thesis
          by (simp split: prod.splits)
      next
        case (Inl e)
        show ?thesis
        proof (cases "IsNotRegisteredError e")
          case False
          with r None \<open>\<not> isEmptyYAML content\<close> Inl show ?thesis
            by (simp add: NewPackage_def)
        next
          case True
          show ?thesis
          proof (cases "do content")
            case (Inl e')
            with r None \<open>\<not> isEmptyYAML content\<close> \<open>dm content = Inl e\<close> True show ?thesis
              by (simp add: NewPackage_def)
          next
            case (Inr obj)
            have a: "parse_loop dm do rd rs (pkg\<lparr>objects := objects pkg @ [obj]\<rparr>)
                       (cs @ [MetaDecode content, ObjDecode content])
                     = (case parse_loop dm do rd rs NewPackage [] of
                          (p, e, c) \<Rightarrow>
                            (\<lparr>meta = meta pkg @ meta p,
                              objects = objects pkg @ obj # objects p\<rparr>,
                             e, cs @ MetaDecode content # ObjDecode content # c))"
              by (subst IH) (simp split: prod.splits)
            have b: "parse_loop dm do rd rs (NewPackage\<lparr>objects := objects NewPackage @ [obj]\<rparr>)
                       ([] @ [MetaDecode content, ObjDecode content])
                     = (case parse_loop dm do rd rs NewPackage [] of
                          (p, e, c) \<Rightarrow>
                            (\<lparr>meta = meta p, objects = obj # objects p\<rparr>,
                             e, MetaDecode content # ObjDecode content # c))"
              by (subst IH) (simp add: NewPackage_def split: prod.splits)
            from r None \<open>\<not> isEmptyYAML content\<close> \<open>dm content = Inl e\<close> True Inr a b
            show ?thesis
              by (simp split: prod.splits)
          qed
        qed
      qed
    qed
  qed
qed

lemma nonblank_docs_simps:
  "nonblank_docs [] = []"
  "nonblank_docs ((c, Some e) # rs) = []"
  "nonblank_docs ((c, None) # rs) =
     (if isEmptyYAML c then nonblank_docs rs else c # nonblank_docs rs)"
  by (simp_all add: nonblank_docs_def read_docs_def)

lemma parse_loop_meta_step:
  assumes "\<not> isEmptyYAML c" and "dm c = Inr m"
  shows "parse_loop dm do rd ((c, None) # rs) NewPackage [] =
           (case parse_loop dm do rd rs NewPackage [] of
              (p, e, cs) \<Rightarrow> (\<lparr>meta = m # meta p, objects = objects p\<rparr>, e, MetaDecode c # cs))"
proof -
  have "parse_loop dm do rd ((c, None) # rs) NewPackage [] =
          parse_loop dm do rd rs (NewPackage\<lparr>meta := meta NewPackage @ [m]\<rparr>) [MetaDecode c]"
    using assms by simp
  also have "\<dots> = (case parse_loop dm do rd rs NewPackage [] of
              (p, e, cs) \<Rightarrow> (\<lparr>meta = m # meta p, objects = objects p\<rparr>, e, MetaDecode c # cs))"
    by (subst parse_loop_acc) (simp add: NewPackage_def split: prod.splits)
  finally show ?thesis .
qed

lemma parse_loop_object_step:
  assumes "\<not> isEmptyYAML c" and "dm c = Inl e" and "IsNotRegisteredError e"
    and "do c = Inr obj"
  shows "parse_loop dm do rd ((c, None) # rs) NewPackage [] =
           (case parse_loop dm do rd rs NewPackage [] of
              (p, e, cs) \<Rightarrow>
                (\<lparr>meta = meta p, objects = obj # objects p\<rparr>, e,
                 MetaDecode c # ObjDecode c # cs))"
proof -
  have "parse_loop dm do rd ((c, None) # rs) NewPackage [] =
          parse_loop dm do rd rs (NewPackage\<lparr>objects := objects NewPackage @ [obj]\<rparr>)
            [MetaDecode c, ObjDecode c]"
    using assms by simp
  also have "\<dots> = (case parse_loop dm do rd rs NewPackage [] of
              (p, e, cs) \<Rightarrow>
                (\<lparr>meta = meta p, objects = obj # objects p\<rparr>, e,
                 MetaDecode c # ObjDecode c # cs))"
    by (subst parse_loop_acc) (simp add: NewPackage_def split: prod.splits)
  finally show ?thesis .
qed

lemma first_read_error_simps:
  "first_read_error [] = None"
  "first_read_error ((c, Some e) # rs) = Some e"
  "first_read_error ((c, None) # rs) = first_read_error rs"
  by (simp_all add: first_read_error_def)

lemma first_decode_failure_simps:
  "first_decode_failure dm do [] = None"
  "first_decode_failure dm do ((c, Some e) # rs) = None"
  "first_decode_failure dm do ((c, None) # rs) =
     (if isEmptyYAML c then first_decode_failure dm do rs
      else (case classify dm do c of
              Failed e \<Rightarrow> Some e
            | x \<Rightarrow> first_decode_failure dm do rs))"
  by (simp_all add: first_decode_failure_def nonblank_docs_simps split: outcome.splits)

lemma decoded_docs_simps:
  "decoded_docs dm do [] = []"
  "decoded_docs dm do ((c, Some e) # rs) = []"
  "decoded_docs dm do ((c, None) # rs) =
     (if isEmptyYAML c then decoded_docs dm do rs
      else if is_Failed (classify dm do c) then []
      else c # decoded_docs dm do rs)"
  by (simp_all add: decoded_docs_def nonblank_docs_simps)

lemma terminal_error_simps:
  "terminal_error dm do rd [] = None"
  "terminal_error dm do rd ((c, Some e) # rs) = (if Is e EOF then None else Some e)"
  "terminal_error dm do rd ((c, None) # rs) =
     (if isEmptyYAML c then terminal_error dm do rd rs
      else (case classify dm do c of
              Failed e \<Rightarrow> annotateErr (Some e) rd
            | x \<Rightarrow> terminal_error dm do rd rs))"
  by (simp_all add: terminal_error_def first_decode_failure_simps first_read_error_simps
      split: outcome.splits option.splits)

text \<open>
  The loop, started on the empty package, computes what the three descriptions of the
  stream say: the decoded values, the terminal error and the registry calls.
\<close>

lemma parse_loop_run:
  "parse_loop dm do rd rs NewPackage [] =
     (\<lparr>meta = concat (map (\<lambda>d. meta_of (classify dm do d)) (decoded_docs dm do rs)),
       objects = concat (map (\<lambda>d. object_of (classify dm do d)) (decoded_docs dm do rs))\<rparr>,
      terminal_error dm do rd rs,
      policy_calls dm do (nonblank_docs rs))"
proof (induction rs)
  case Nil
  show ?case
    by (simp add: NewPackage_def decoded_docs_simps nonblank_docs_simps terminal_error_simps)
next
  case (Cons r rs)
  obtain c err where r: "r = (c, err)" by (cases r)
  show ?case
  proof (cases err)
    case (Some e)
    with r show ?thesis
      by (simp add: NewPackage_def decoded_docs_simps nonblank_docs_simps terminal_error_simps)
  next
    case None
    show ?thesis
    proof (cases "isEmptyYAML c")
      case True
      with r None Cons.IH show ?thesis
        by (simp add: decoded_docs_simps nonblank_docs_simps terminal_error_simps)
    next
      case False
      show ?thesis
      proof (cases "classify dm do c")
        case (AsMeta m)
        then have dm: "dm c = Inr m"
          by (auto simp: classify_def split: sum.splits if_splits)
        from False dm
        have step: "parse_loop dm do rd ((c, None) # rs) NewPackage [] =
           (case parse_loop dm do rd rs NewPackage [] of
              (p, e, cs) \<Rightarrow> (\<lparr>meta = m # meta p, objects = objects p\<rparr>, e, MetaDecode c # cs))"
          by (rule parse_loop_meta_step)
        from False AsMeta dm show ?thesis
          unfolding r None step Cons.IH
          by (simp add: decoded_docs_simps nonblank_docs_simps terminal_error_simps)
      next
        case (AsObject obj)
        then obtain e where dm: "dm c = Inl e" and nr: "IsNotRegisteredError e"
          and dob: "do c = Inr obj"
          by (auto simp: classify_def split: sum.splits if_splits)
        from False dm nr dob
        have step: "parse_loop dm do rd ((c, None) # rs) NewPackage [] =
           (case parse_loop dm do rd rs NewPackage [] of
              (p, e, cs) \<Rightarrow>
                (\<lparr>meta = meta p, objects = obj # objects p\<rparr>, e,
                 MetaDecode c # ObjDecode c # cs))"
          by (rule parse_loop_object_step)
        from False AsObject dm nr dob show ?thesis
          unfolding r None step Cons.IH
          by (simp add: decoded_docs_simps nonblank_docs_simps terminal_error_simps)
      next
        case (Failed e)
        show ?thesis
        proof (cases "dm c")
          case (Inr m)
          with Failed show ?thesis by (simp add: classify_def)
        next
          case (Inl e1)
          show ?thesis
          proof (cases "IsNotRegisteredError e1")
            case nr: False
            with Inl Failed have "e1 = e" by (simp add: classify_def)
            with r None False Failed Inl nr show ?thesis
              by (simp add: NewPackage_def decoded_docs_simps nonblank_docs_simps
                  terminal_error_simps)
          next
            case nr: True
            with Inl Failed have "do c = Inl e"
              by (simp add: classify_def split: sum.splits)
            with r None False Failed Inl nr show ?thesis
              by (simp add: NewPackage_def decoded_docs_simps nonblank_docs_simps
                  terminal_error_simps)
          qed
        qed
      qed
    qed
  qed
qed

section \<open>Parse against the descriptions of the stream\<close>

lemma Parse_run:
  "Parse dm do (Some rd) =
     \<lparr>res_pkg =
        \<lparr>meta = concat (map (\<lambda>d. meta_of (classify dm do d)) (decoded_docs dm do (reads rd))),
         objects = concat (map (\<lambda>d. object_of (classify dm do d)) (decoded_docs dm do (reads rd)))\<rparr>,
      res_err = terminal_error dm do rd (reads rd),
      res_calls = policy_calls dm do (nonblank_docs (reads rd)),
      res_closed = True\<rparr>"
  by (simp add: parse_loop_run del: parse_loop.simps)

lemma policy_calls_ObjDecode:
  "ObjDecode d \<in> set (policy_calls dm do ds) \<Longrightarrow> \<exists>e. dm d = Inl e \<and> IsNotRegisteredError e"
  by (induction ds) (auto split: sum.splits if_splits)

lemma policy_calls_abort:
  "MetaDecode d \<in> set (policy_calls dm do ds) \<Longrightarrow> dm d = Inl e \<Longrightarrow> \<not> IsNotRegisteredError e
     \<Longrightarrow> policy_calls dm do ds \<noteq> [] \<and> last (policy_calls dm do ds) = MetaDecode d"
  by (induction ds) (auto split: sum.splits if_splits)

lemma terminal_error_abort:
  "MetaDecode d \<in> set (policy_calls dm do (nonblank_docs rs)) \<Longrightarrow> dm d = Inl e
     \<Longrightarrow> \<not> IsNotRegisteredError e \<Longrightarrow> terminal_error dm do rd rs = annotateErr (Some e) rd"
proof (induction rs)
  case Nil
  then show ?case by (simp add: nonblank_docs_simps)
next
  case (Cons r rs)
  obtain c err where r: "r = (c, err)" by (cases r)
  show ?case
  proof (cases err)
    case (Some x)
    with Cons.prems r show ?thesis by (simp add: nonblank_docs_simps)
  next
    case None
    with Cons r show ?thesis
      by (auto simp: nonblank_docs_simps terminal_error_simps classify_def
          split: sum.splits if_splits)
  qed
qed

section \<open>The decode policy\<close>

text \<open>
  Claim C1. For every non-blank document, \<open>Parse\<close> attempts the decode against the metadata
  registry first; it attempts the content registry only when that attempt failed with the
  kind-not-recognized error; when the metadata attempt fails with any other error, \<open>Parse\<close>
  aborts at once, without an attempt against the content registry.

  The calls \<open>Parse\<close> makes are exactly those the policy prescribes for the non-blank
  documents of the stream. A call to the content registry for a document happens only where
  the metadata registry answered kind-not-recognized for it. A call to the metadata registry
  that fails otherwise is the last call of the parse, no call to the content registry is
  made for that document, and the parse returns that failure through \<open>annotateErr\<close>.
\<close>

theorem C1_metadata_registry_first:
  "res_calls (Parse dm do (Some rd)) = policy_calls dm do (nonblank_docs (reads rd))
   \<and> (\<forall>d. ObjDecode d \<in> set (res_calls (Parse dm do (Some rd)))
          \<longrightarrow> (\<exists>e. dm d = Inl e \<and> IsNotRegisteredError e))
   \<and> (\<forall>d e. MetaDecode d \<in> set (res_calls (Parse dm do (Some rd))) \<and> dm d = Inl e
            \<and> \<not> IsNotRegisteredError e
          \<longrightarrow> last (res_calls (Parse dm do (Some rd))) = MetaDecode d
              \<and> ObjDecode d \<notin> set (res_calls (Parse dm do (Some rd)))
              \<and> res_err (Parse dm do (Some rd)) = annotateErr (Some e) rd)"
proof (intro conjI allI impI)
  show "res_calls (Parse dm do (Some rd)) = policy_calls dm do (nonblank_docs (reads rd))"
    unfolding Parse_run by simp
next
  fix d
  assume "ObjDecode d \<in> set (res_calls (Parse dm do (Some rd)))"
  then show "\<exists>e. dm d = Inl e \<and> IsNotRegisteredError e"
    unfolding Parse_run by (simp add: policy_calls_ObjDecode)
next
  fix d e
  assume a: "MetaDecode d \<in> set (res_calls (Parse dm do (Some rd))) \<and> dm d = Inl e
            \<and> \<not> IsNotRegisteredError e"
  then have m: "MetaDecode d \<in> set (policy_calls dm do (nonblank_docs (reads rd)))"
    unfolding Parse_run by simp
  from m a show "last (res_calls (Parse dm do (Some rd))) = MetaDecode d"
    using policy_calls_abort [of d dm "do" "nonblank_docs (reads rd)" e]
    unfolding Parse_run by simp
  from a show "ObjDecode d \<notin> set (res_calls (Parse dm do (Some rd)))"
    using policy_calls_ObjDecode [of d dm "do" "nonblank_docs (reads rd)"]
    unfolding Parse_run by auto
  from m a show "res_err (Parse dm do (Some rd)) = annotateErr (Some e) rd"
    using terminal_error_abort [of d dm "do" "reads rd" e rd]
    unfolding Parse_run by simp
qed

theorem C1_metadata_registry_first_witness:
  "MetaDecode ''kind: Foo, bad'' \<in> set (res_calls (Parse example_meta example_obj (Some example_reader)))
   \<and> example_meta ''kind: Foo, bad'' = Inl (otherErr ''malformed'')
   \<and> \<not> IsNotRegisteredError (otherErr ''malformed'')
   \<and> last (res_calls (Parse example_meta example_obj (Some example_reader)))
         = MetaDecode ''kind: Foo, bad''
   \<and> ObjDecode ''kind: Foo, bad''
         \<notin> set (res_calls (Parse example_meta example_obj (Some example_reader)))
   \<and> res_err (Parse example_meta example_obj (Some example_reader))
         = annotateErr (Some (otherErr ''malformed'')) example_reader
   \<and> ObjDecode ''kind: Bar''
         \<in> set (res_calls (Parse example_meta example_obj (Some example_reader)))
   \<and> (\<exists>e. example_meta ''kind: Bar'' = Inl e \<and> IsNotRegisteredError e)"
proof -
  have h: "MetaDecode ''kind: Foo, bad''
             \<in> set (res_calls (Parse example_meta example_obj (Some example_reader)))
           \<and> example_meta ''kind: Foo, bad'' = Inl (otherErr ''malformed'')
           \<and> \<not> IsNotRegisteredError (otherErr ''malformed'')"
    by code_simp
  have b: "ObjDecode ''kind: Bar''
             \<in> set (res_calls (Parse example_meta example_obj (Some example_reader)))"
    by code_simp
  from h b C1_metadata_registry_first [of example_meta example_obj example_reader]
  show ?thesis by blast
qed

section \<open>The absent stream\<close>

text \<open>
  Claim C7. For a nil stream \<open>Parse\<close> returns an empty package and no error; the no-op
  backend's \<open>Init\<close> always returns the nil stream and no error, whatever its options, and
  \<open>Parse\<close> treats that stream as zero documents: no registry is called and nothing is closed.
\<close>

theorem C7_nil_stream:
  "Parse dm do None =
     \<lparr>res_pkg = NewPackage, res_err = None, res_calls = [], res_closed = False\<rparr>
   \<and> GetMeta (res_pkg (Parse dm do None)) = []
   \<and> GetObjects (res_pkg (Parse dm do None)) = []
   \<and> NopBackend_Init bo = (None, None)
   \<and> res_err (Parse dm do (fst (NopBackend_Init bo))) = None
   \<and> res_pkg (Parse dm do (fst (NopBackend_Init bo))) = NewPackage"
  by (simp add: NopBackend_Init_def NewPackage_def GetMeta_def GetObjects_def)

theorem C7_nil_stream_witness:
  "res_pkg (Parse example_meta example_obj (fst (NopBackend_Init ([PodName ''p'', FsDir ''d''] :: (nat, nat, nat) BackendOption list))))
     = \<lparr>meta = [], objects = []\<rparr>
   \<and> res_err (Parse example_meta example_obj (fst (NopBackend_Init ([PodName ''p'', FsDir ''d''] :: (nat, nat, nat) BackendOption list))))
     = None"
  using C7_nil_stream [of example_meta example_obj "[PodName ''p'', FsDir ''d''] :: (nat, nat, nat) BackendOption list"]
  unfolding NewPackage_def by blast

section \<open>Options on the backends\<close>

text \<open>
  Claim C9. An option applied to a backend of another variant leaves the backend as it was
  (an option returns nothing, so there is no error to report): \<open>PodName\<close>, \<open>PodNamespace\<close> and
  \<open>PodClient\<close> on a backend that is not a \<open>PodLogBackend\<close>, \<open>FsDir\<close> and \<open>FsFilters\<close> on one that
  is not an \<open>FsBackend\<close>. On an \<open>FsBackend\<close>, \<open>FsFilters\<close> sets the skip predicates to the
  ones given: applied after an earlier \<open>FsFilters\<close>, only the later ones remain, also through
  the option loop of \<open>NewFsBackend\<close>, which passes over an option meant for a pod backend.
\<close>

theorem C9_options:
  fixes p :: "('c, 'f, 'k) Backend"
  shows "((\<forall>pl. p \<noteq> PodLog pl) \<longrightarrow> PodName n p = p \<and> PodNamespace ns p = p \<and> PodClient c p = p)
   \<and> ((\<forall>f. p \<noteq> Fs f) \<longrightarrow> FsDir d p = p \<and> FsFilters sk p = p)
   \<and> FsFilters sk (Fs f) = Fs (f\<lparr>skips := sk\<rparr>)
   \<and> FsFilters sk (FsFilters sk' (Fs f)) = FsFilters sk (Fs f)
   \<and> apply_options [FsFilters sk', FsFilters sk] (Fs f) = Fs (f\<lparr>skips := sk\<rparr>)
   \<and> NewFsBackend fsys [PodName n, FsFilters sk', FsFilters sk]
       = (Fs \<lparr>fs = fsys, dir = '''', skips = sk\<rparr> :: ('c, 'f, 'k) Backend)"
  by (cases p) (simp_all add: NewFsBackend_def)

theorem C9_options_witness:
  "(\<forall>pl. (Echo ''x'' :: (nat, nat, nat) Backend) \<noteq> PodLog pl)
   \<and> (\<forall>f. (Echo ''x'' :: (nat, nat, nat) Backend) \<noteq> Fs f)
   \<and> PodName ''n'' (Echo ''x'' :: (nat, nat, nat) Backend) = Echo ''x''
   \<and> PodNamespace ''ns'' (Echo ''x'' :: (nat, nat, nat) Backend) = Echo ''x''
   \<and> PodClient (Some 1) (Echo ''x'' :: (nat, nat, nat) Backend) = Echo ''x''
   \<and> FsDir ''d'' (Echo ''x'' :: (nat, nat, nat) Backend) = Echo ''x''
   \<and> FsFilters [2] (Echo ''x'' :: (nat, nat, nat) Backend) = Echo ''x''"
proof -
  have h: "(\<forall>pl. (Echo ''x'' :: (nat, nat, nat) Backend) \<noteq> PodLog pl)
   \<and> (\<forall>f. (Echo ''x'' :: (nat, nat, nat) Backend) \<noteq> Fs f)" by simp
  from h C9_options [of "Echo ''x'' :: (nat, nat, nat) Backend" "''n''" "''ns''" "Some 1" "''d''" "[2]"]
  show ?thesis by blast
qed

section \<open>Streams that continue a stream\<close>

lemma annotateErr_Some: "annotateErr (Some e) rd \<noteq> None"
  by (simp add: annotateErr_def split: option.splits)

lemma parse_loop_append:
  assumes "\<forall>r \<in> set pre. snd r = None"
    and "parse_loop dm do rd pre pkg cs = (p1, None, c1)"
  shows "parse_loop dm do rd (pre @ rest) pkg cs = parse_loop dm do rd rest p1 c1"
  using assms
proof (induction pre arbitrary: pkg cs)
  case Nil
  then show ?case by simp
next
  case (Cons r pre)
  obtain c err where r: "r = (c, err)" by (cases r)
  with Cons.prems(1) have err: "err = None" by simp
  from Cons.prems(1) have pre: "\<forall>r \<in> set pre. snd r = None" by simp
  show ?case
  proof (cases "isEmptyYAML c")
    case True
    with Cons.prems(2) r err Cons.IH [OF pre] show ?thesis by simp
  next
    case False
    show ?thesis
    proof (cases "dm c")
      case (Inr m)
      with Cons.prems(2) r err False Cons.IH [OF pre] show ?thesis by simp
    next
      case (Inl e)
      show ?thesis
      proof (cases "IsNotRegisteredError e")
        case nr: False
        with Cons.prems(2) r err False Inl show ?thesis
          by (simp add: annotateErr_Some)
      next
        case nr: True
        show ?thesis
        proof (cases "do c")
          case dob: (Inl e')
          with Cons.prems(2) r err False Inl nr show ?thesis
            by (simp add: annotateErr_Some)
        next
          case dob: (Inr obj)
          with Cons.prems(2) r err False Inl nr Cons.IH [OF pre] show ?thesis by simp
        qed
      qed
    qed
  qed
qed

lemma parse_loop_annotation:
  "annotation rd = annotation rd'
     \<Longrightarrow> parse_loop dm do rd rs pkg cs = parse_loop dm do rd' rs pkg cs"
proof (induction rs arbitrary: pkg cs)
  case Nil
  show ?case by simp
next
  case (Cons r rs)
  obtain c err where r: "r = (c, err)" by (cases r)
  from Cons show ?case
    unfolding r
    by (simp add: annotateErr_def split: option.splits sum.splits)
qed

lemma Parse_prefix_run:
  assumes "\<forall>r \<in> set pre. snd r = None"
    and "res_err (Parse dm do (Some \<lparr>reads = pre, annotation = a\<rparr>)) = None"
  shows "parse_loop dm do \<lparr>reads = pre @ rest, annotation = a\<rparr> (pre @ rest) NewPackage [] =
           parse_loop dm do \<lparr>reads = pre @ rest, annotation = a\<rparr> rest
             (res_pkg (Parse dm do (Some \<lparr>reads = pre, annotation = a\<rparr>)))
             (res_calls (Parse dm do (Some \<lparr>reads = pre, annotation = a\<rparr>)))"
proof -
  let ?rd = "\<lparr>reads = pre @ rest, annotation = a\<rparr>"
  let ?rp = "\<lparr>reads = pre, annotation = a\<rparr>"
  obtain p1 e1 c1 where run: "parse_loop dm do ?rp pre NewPackage [] = (p1, e1, c1)"
    by (cases "parse_loop dm do ?rp pre NewPackage []") auto
  with assms(2) have e1: "e1 = None" by simp
  have "parse_loop dm do ?rd pre NewPackage [] = parse_loop dm do ?rp pre NewPackage []"
    by (rule parse_loop_annotation) simp
  with run e1 have "parse_loop dm do ?rd pre NewPackage [] = (p1, None, c1)" by simp
  from parse_loop_append [OF assms(1) this]
  have "parse_loop dm do ?rd (pre @ rest) NewPackage [] = parse_loop dm do ?rd rest p1 c1" .
  with run show ?thesis by simp
qed

section \<open>A document that neither registry recognizes\<close>

text \<open>
  Claim C2, as the specification states it: for a document whose kind neither registry
  recognizes, the error \<open>Parse\<close> returns is the failure of the metadata registry and not that of
  the content registry. On the stream of the one document \<open>kind: Baz\<close> the two registries
  fail with different errors and \<open>Parse\<close> returns the error of the content registry.
\<close>

theorem C2_counterexample:
  "example_meta ''kind: Baz'' = Inl (notRegisteredErr ''not registered in the meta scheme'')
   \<and> example_obj ''kind: Baz'' = Inl (notRegisteredErr ''not registered in the object scheme'')
   \<and> res_err (Parse example_meta example_obj
               (Some \<lparr>reads = [(''kind: Baz'', None)], annotation = None\<rparr>))
       = Some (notRegisteredErr ''not registered in the object scheme'')
   \<and> res_err (Parse example_meta example_obj
               (Some \<lparr>reads = [(''kind: Baz'', None)], annotation = None\<rparr>))
       \<noteq> Some (notRegisteredErr ''not registered in the meta scheme'')"
  by code_simp

text \<open>
  Claim C2, amended. When the documents before it were all read and decoded without error, a
  non-blank document that the metadata registry fails on with kind-not-recognized and the
  content registry fails on too ends the parse: the error returned is the failure of the
  content registry, passed through \<open>annotateErr\<close>; the package is the one the documents
  before it produce, so the document adds to neither list and the earlier documents stay;
  the calls are those for the earlier documents and the two attempts on this one.
\<close>

theorem C2_unrecognized_by_both:
  assumes "\<forall>r \<in> set pre. snd r = None"
    and "res_err (Parse dm do (Some \<lparr>reads = pre, annotation = a\<rparr>)) = None"
    and "\<not> isEmptyYAML d"
    and "dm d = Inl em" and "IsNotRegisteredError em"
    and "do d = Inl eo"
  shows "res_err (Parse dm do (Some \<lparr>reads = pre @ (d, None) # rest, annotation = a\<rparr>))
           = annotateErr (Some eo) \<lparr>reads = pre @ (d, None) # rest, annotation = a\<rparr>
         \<and> res_err (Parse dm do (Some \<lparr>reads = pre @ (d, None) # rest, annotation = a\<rparr>))
           \<noteq> None
         \<and> res_pkg (Parse dm do (Some \<lparr>reads = pre @ (d, None) # rest, annotation = a\<rparr>))
           = res_pkg (Parse dm do (Some \<lparr>reads = pre, annotation = a\<rparr>))
         \<and> res_calls (Parse dm do (Some \<lparr>reads = pre @ (d, None) # rest, annotation = a\<rparr>))
           = res_calls (Parse dm do (Some \<lparr>reads = pre, annotation = a\<rparr>))
               @ [MetaDecode d, ObjDecode d]"
proof -
  let ?rd = "\<lparr>reads = pre @ (d, None) # rest, annotation = a\<rparr>"
  let ?R0 = "Parse dm do (Some \<lparr>reads = pre, annotation = a\<rparr>)"
  have "parse_loop dm do ?rd (pre @ (d, None) # rest) NewPackage [] =
          parse_loop dm do ?rd ((d, None) # rest) (res_pkg ?R0) (res_calls ?R0)"
    using assms(1,2) by (rule Parse_prefix_run)
  also have "\<dots> = (res_pkg ?R0, annotateErr (Some eo) ?rd,
                     res_calls ?R0 @ [MetaDecode d, ObjDecode d])"
    using assms(3-6) by simp
  finally have run: "parse_loop dm do ?rd (pre @ (d, None) # rest) NewPackage [] =
      (res_pkg ?R0, annotateErr (Some eo) ?rd, res_calls ?R0 @ [MetaDecode d, ObjDecode d])" .
  have "Parse dm do (Some ?rd) =
          \<lparr>res_pkg = res_pkg ?R0, res_err = annotateErr (Some eo) ?rd,
           res_calls = res_calls ?R0 @ [MetaDecode d, ObjDecode d], res_closed = True\<rparr>"
    by (simp add: run del: parse_loop.simps)
  then show ?thesis by (simp add: annotateErr_Some del: Parse.simps)
qed

theorem C2_unrecognized_by_both_witness:
  "list_all (\<lambda>r. snd r = (None :: error option)) [(''kind: Foo'', None), (''kind: Bar'', None)]
   \<and> res_err (Parse example_meta example_obj
        (Some \<lparr>reads = [(''kind: Foo'', None), (''kind: Bar'', None)],
               annotation = Some ''package.yaml''\<rparr>)) = None
   \<and> \<not> isEmptyYAML ''kind: Baz''
   \<and> example_meta ''kind: Baz'' = Inl (notRegisteredErr ''not registered in the meta scheme'')
   \<and> IsNotRegisteredError (notRegisteredErr ''not registered in the meta scheme'')
   \<and> example_obj ''kind: Baz'' = Inl (notRegisteredErr ''not registered in the object scheme'')
   \<and> res_err (Parse example_meta example_obj
        (Some \<lparr>reads = [(''kind: Foo'', None), (''kind: Bar'', None)]
                        @ (''kind: Baz'', None) # [(''kind: Foo'', None)],
               annotation = Some ''package.yaml''\<rparr>))
      = Some (wrapped ''package.yaml'' (notRegisteredErr ''not registered in the object scheme''))
   \<and> res_pkg (Parse example_meta example_obj
        (Some \<lparr>reads = [(''kind: Foo'', None), (''kind: Bar'', None)]
                        @ (''kind: Baz'', None) # [(''kind: Foo'', None)],
               annotation = Some ''package.yaml''\<rparr>))
      = \<lparr>meta = [''Foo''], objects = [''Bar'']\<rparr>"
proof -
  have h1: "\<forall>r \<in> set [(''kind: Foo'', None), (''kind: Bar'', None)]. snd r = (None :: error option)"
    by simp
  have h2: "res_err (Parse example_meta example_obj
        (Some \<lparr>reads = [(''kind: Foo'', None), (''kind: Bar'', None)],
               annotation = Some ''package.yaml''\<rparr>)) = None"
    by code_simp
  have h3: "\<not> isEmptyYAML ''kind: Baz''" by code_simp
  have h4: "example_meta ''kind: Baz'' = Inl (notRegisteredErr ''not registered in the meta scheme'')"
    by code_simp
  have h5: "IsNotRegisteredError (notRegisteredErr ''not registered in the meta scheme'')"
    by simp
  have h6: "example_obj ''kind: Baz'' = Inl (notRegisteredErr ''not registered in the object scheme'')"
    by code_simp
  have e: "annotateErr (Some (notRegisteredErr ''not registered in the object scheme''))
             \<lparr>reads = [(''kind: Foo'', None), (''kind: Bar'', None)]
                        @ (''kind: Baz'', None) # [(''kind: Foo'', None)],
               annotation = Some ''package.yaml''\<rparr>
           = Some (wrapped ''package.yaml'' (notRegisteredErr ''not registered in the object scheme''))"
    by (simp add: annotateErr_def)
  have p: "res_pkg (Parse example_meta example_obj
        (Some \<lparr>reads = [(''kind: Foo'', None), (''kind: Bar'', None)],
               annotation = Some ''package.yaml''\<rparr>)) = \<lparr>meta = [''Foo''], objects = [''Bar'']\<rparr>"
    by code_simp
  from C2_unrecognized_by_both [OF h1 h2 h3 h4 h5 h6, of "[(''kind: Foo'', None)]"] e p
  have "res_err (Parse example_meta example_obj
        (Some \<lparr>reads = [(''kind: Foo'', None), (''kind: Bar'', None)]
                        @ (''kind: Baz'', None) # [(''kind: Foo'', None)],
               annotation = Some ''package.yaml''\<rparr>))
      = Some (wrapped ''package.yaml'' (notRegisteredErr ''not registered in the object scheme''))
   \<and> res_pkg (Parse example_meta example_obj
        (Some \<lparr>reads = [(''kind: Foo'', None), (''kind: Bar'', None)]
                        @ (''kind: Baz'', None) # [(''kind: Foo'', None)],
               annotation = Some ''package.yaml''\<rparr>))
      = \<lparr>meta = [''Foo''], objects = [''Bar'']\<rparr>"
    by (simp del: Parse.simps append.simps)
  moreover have "list_all (\<lambda>r. snd r = (None :: error option))
      [(''kind: Foo'', None), (''kind: Bar'', None)]"
    by simp
  ultimately show ?thesis using h2 h3 h4 h5 h6 by blast
qed

section \<open>Terminal errors\<close>

text \<open>
  Claim C3, as the specification states it: every terminal error of \<open>Parse\<close>, a failure of
  \<open>Read()\<close> in the middle of the stream included, is wrapped with the annotation of a stream
  that has one. On an annotated stream whose second \<open>Read()\<close> fails, \<open>Parse\<close> returns the
  reader's error as it is, not the error \<open>annotateErr\<close> makes of it.
\<close>

theorem C3_counterexample:
  "annotation \<lparr>reads = [(''kind: Foo'', None), ('''', Some (otherErr ''connection reset''))],
               annotation = Some ''package.yaml''\<rparr> = Some ''package.yaml''
   \<and> res_err (Parse example_meta example_obj
        (Some \<lparr>reads = [(''kind: Foo'', None), ('''', Some (otherErr ''connection reset''))],
               annotation = Some ''package.yaml''\<rparr>))
       = Some (otherErr ''connection reset'')
   \<and> res_err (Parse example_meta example_obj
        (Some \<lparr>reads = [(''kind: Foo'', None), ('''', Some (otherErr ''connection reset''))],
               annotation = Some ''package.yaml''\<rparr>))
       \<noteq> annotateErr (Some (otherErr ''connection reset''))
            \<lparr>reads = [(''kind: Foo'', None), ('''', Some (otherErr ''connection reset''))],
             annotation = Some ''package.yaml''\<rparr>"
  by code_simp

text \<open>
  Claim C3, amended. The error \<open>Parse\<close> returns is decided by the first document that fails
  to decode, if there is one before the stream ends or fails: its failure is wrapped once
  with the annotation of a stream that has one and returned as it is otherwise. Without
  such a document the error is the first error of \<open>Read()\<close>, returned as it is whether or not
  the stream has an annotation, the end of the stream being no error; a parse without
  failure returns nil, which is never wrapped.
\<close>

theorem C3_terminal_error:
  "res_err (Parse dm do (Some rd)) =
     (case first_decode_failure dm do (reads rd) of
        Some e \<Rightarrow>
          (case annotation rd of
             Some anno \<Rightarrow> Some (wrapped anno e)
           | None \<Rightarrow> Some e)
      | None \<Rightarrow>
          (case first_read_error (reads rd) of
             Some e \<Rightarrow> if Is e EOF then None else Some e
           | None \<Rightarrow> None))"
  unfolding Parse_run
  by (simp add: terminal_error_def annotateErr_def split: option.splits)

theorem C3_terminal_error_witness:
  "res_err (Parse example_meta example_obj (Some example_annotated_reader))
     = Some (wrapped ''package.yaml'' (otherErr ''malformed''))
   \<and> res_err (Parse example_meta example_obj (Some example_reader))
     = Some (otherErr ''malformed'')"
proof -
  have a: "first_decode_failure example_meta example_obj (reads example_annotated_reader)
             = Some (otherErr ''malformed'')"
    by code_simp
  have b: "first_decode_failure example_meta example_obj (reads example_reader)
             = Some (otherErr ''malformed'')"
    by code_simp
  have c: "annotation example_annotated_reader = Some ''package.yaml''"
    by (simp add: example_annotated_reader_def)
  have d: "annotation example_reader = None"
    by (simp add: example_reader_def)
  show ?thesis
    using C3_terminal_error [of example_meta example_obj example_annotated_reader]
      C3_terminal_error [of example_meta example_obj example_reader]
    unfolding a b c d by simp
qed

section \<open>Every document in one list\<close>

lemma decoded_values_length:
  "\<forall>d \<in> set ds. \<not> is_Failed (classify dm do d)
     \<Longrightarrow> length (concat (map (\<lambda>d. meta_of (classify dm do d)) ds))
           + length (concat (map (\<lambda>d. object_of (classify dm do d)) ds)) = length ds"
proof (induction ds)
  case Nil
  show ?case by simp
next
  case (Cons d ds)
  then show ?case by (cases "classify dm do d") simp_all
qed

lemma decoded_docs_not_Failed:
  "\<forall>d \<in> set (decoded_docs dm do rs). \<not> is_Failed (classify dm do d)"
  by (auto simp: decoded_docs_def dest: set_takeWhileD)

lemma terminal_error_None_decoded:
  assumes "terminal_error dm do rd rs = None"
  shows "decoded_docs dm do rs = nonblank_docs rs"
proof -
  from assms have "first_decode_failure dm do rs = None"
    by (simp add: terminal_error_def annotateErr_Some split: option.splits)
  then have "find (\<lambda>d. is_Failed (classify dm do d)) (nonblank_docs rs) = None"
    by (auto simp: first_decode_failure_def find_Some_iff split: option.splits outcome.splits)
  then have "\<forall>d \<in> set (nonblank_docs rs). \<not> is_Failed (classify dm do d)"
    by (simp add: find_None_iff)
  then show ?thesis
    by (simp add: decoded_docs_def takeWhile_eq_all_conv)
qed

text \<open>
  Claim C4, as the specification states it: each document recognized by the metadata
  registry appears in \<open>GetMeta()\<close>, and each non-blank document appears in one of the two
  lists or caused the parse to fail. On the stream of the malformed document
  \<open>kind: Foo, bad\<close> followed by \<open>kind: Foo\<close> the parse fails on the first document. The second
  document is not blank and the metadata registry recognizes it, it is not the document the
  parse failed on, and yet both lists are empty: \<open>Parse\<close> stops reading at the first failure.
\<close>

theorem C4_counterexample:
  "\<not> isEmptyYAML ''kind: Foo''
   \<and> example_meta ''kind: Foo'' = Inr ''Foo''
   \<and> classify example_meta example_obj ''kind: Foo'' = AsMeta ''Foo''
   \<and> classify example_meta example_obj ''kind: Foo, bad'' = Failed (otherErr ''malformed'')
   \<and> res_err (Parse example_meta example_obj
        (Some \<lparr>reads = [(''kind: Foo, bad'', None), (''kind: Foo'', None)],
               annotation = None\<rparr>)) = Some (otherErr ''malformed'')
   \<and> GetMeta (res_pkg (Parse example_meta example_obj
        (Some \<lparr>reads = [(''kind: Foo, bad'', None), (''kind: Foo'', None)],
               annotation = None\<rparr>))) = []
   \<and> GetObjects (res_pkg (Parse example_meta example_obj
        (Some \<lparr>reads = [(''kind: Foo, bad'', None), (''kind: Foo'', None)],
               annotation = None\<rparr>))) = []
   \<and> res_calls (Parse example_meta example_obj
        (Some \<lparr>reads = [(''kind: Foo, bad'', None), (''kind: Foo'', None)],
               annotation = None\<rparr>)) = [MetaDecode ''kind: Foo, bad'']"
  by code_simp

text \<open>
  Claim C4, amended. Of the non-blank documents of the stream, those before the first one
  that fails to decode appear each in exactly one of the two lists, in stream order: a
  document recognized by the metadata registry in \<open>GetMeta()\<close> and never in \<open>GetObjects()\<close>. When
  \<open>Parse\<close> returns no error these are all the non-blank documents of the stream, so a
  document is missing from both lists only when the parse failed; the failing document and
  the documents after it, which are not read, are in neither list.

  The two lists are the decoded values, in stream order, of the non-blank documents before
  the first one that fails to decode: \<open>GetMeta()\<close> has the value of each document the metadata
  registry decodes, \<open>GetObjects()\<close> that of each document the content registry decodes after
  the metadata registry did not recognize its kind. A document the metadata registry
  decodes contributes to \<open>GetMeta()\<close> only. Each of these documents contributes one value to
  one list, so the two lengths add up to their number. When \<open>Parse\<close> returns no error these
  are all the non-blank documents of the stream: a document is left out only when the parse
  fails.
\<close>

theorem C4_every_document_in_one_list:
  "GetMeta (res_pkg (Parse dm do (Some rd)))
     = concat (map (\<lambda>d. meta_of (classify dm do d)) (decoded_docs dm do (reads rd)))
   \<and> GetObjects (res_pkg (Parse dm do (Some rd)))
     = concat (map (\<lambda>d. object_of (classify dm do d)) (decoded_docs dm do (reads rd)))
   \<and> (\<forall>d m. dm d = Inr m \<longrightarrow>
         meta_of (classify dm do d) = [m] \<and> object_of (classify dm do d) = [])
   \<and> length (GetMeta (res_pkg (Parse dm do (Some rd))))
       + length (GetObjects (res_pkg (Parse dm do (Some rd))))
     = length (decoded_docs dm do (reads rd))
   \<and> (res_err (Parse dm do (Some rd)) = None
        \<longrightarrow> decoded_docs dm do (reads rd) = nonblank_docs (reads rd))"
proof (intro conjI allI impI)
  show m: "GetMeta (res_pkg (Parse dm do (Some rd)))
     = concat (map (\<lambda>d. meta_of (classify dm do d)) (decoded_docs dm do (reads rd)))"
    unfolding Parse_run by (simp add: GetMeta_def)
  show o: "GetObjects (res_pkg (Parse dm do (Some rd)))
     = concat (map (\<lambda>d. object_of (classify dm do d)) (decoded_docs dm do (reads rd)))"
    unfolding Parse_run by (simp add: GetObjects_def)
  show "length (GetMeta (res_pkg (Parse dm do (Some rd))))
       + length (GetObjects (res_pkg (Parse dm do (Some rd))))
     = length (decoded_docs dm do (reads rd))"
    unfolding m o using decoded_docs_not_Failed by (rule decoded_values_length)
next
  fix d m
  assume "dm d = Inr m"
  then show "meta_of (classify dm do d) = [m]" and "object_of (classify dm do d) = []"
    by (simp_all add: classify_def)
next
  assume "res_err (Parse dm do (Some rd)) = None"
  then have "terminal_error dm do rd (reads rd) = None"
    unfolding Parse_run by simp
  then show "decoded_docs dm do (reads rd) = nonblank_docs (reads rd)"
    by (rule terminal_error_None_decoded)
qed

theorem C4_every_document_in_one_list_witness:
  "res_err (Parse example_meta example_obj
      (Some \<lparr>reads = [(''kind: Bar'', None), (''kind: Foo'', None), (''---'', None),
                       (''kind: Bar'', None)], annotation = None\<rparr>)) = None
   \<and> example_meta ''kind: Foo'' = Inr ''Foo''
   \<and> GetMeta (res_pkg (Parse example_meta example_obj
      (Some \<lparr>reads = [(''kind: Bar'', None), (''kind: Foo'', None), (''---'', None),
                       (''kind: Bar'', None)], annotation = None\<rparr>))) = [''Foo'']
   \<and> GetObjects (res_pkg (Parse example_meta example_obj
      (Some \<lparr>reads = [(''kind: Bar'', None), (''kind: Foo'', None), (''---'', None),
                       (''kind: Bar'', None)], annotation = None\<rparr>))) = [''Bar'', ''Bar'']
   \<and> decoded_docs example_meta example_obj
        [(''kind: Bar'', None), (''kind: Foo'', None), (''---'', None), (''kind: Bar'', None)]
      = [''kind: Bar'', ''kind: Foo'', ''kind: Bar'']
   \<and> object_of (classify example_meta example_obj ''kind: Foo'') = []"
proof -
  let ?rs = "[(''kind: Bar'', None), (''kind: Foo'', None), (''---'', None),
              (''kind: Bar'', None)] :: read_result list"
  let ?rd = "\<lparr>reads = ?rs, annotation = None\<rparr>"
  have h1: "res_err (Parse example_meta example_obj (Some ?rd)) = None" by code_simp
  have h2: "example_meta ''kind: Foo'' = Inr ''Foo''" by code_simp
  have n: "nonblank_docs (reads ?rd) = [''kind: Bar'', ''kind: Foo'', ''kind: Bar'']"
    by code_simp
  have v: "concat (map (\<lambda>d. meta_of (classify example_meta example_obj d))
             [''kind: Bar'', ''kind: Foo'', ''kind: Bar'']) = [''Foo'']"
     "concat (map (\<lambda>d. object_of (classify example_meta example_obj d))
             [''kind: Bar'', ''kind: Foo'', ''kind: Bar'']) = [''Bar'', ''Bar'']"
    by code_simp+
  from C4_every_document_in_one_list [of example_meta example_obj ?rd] h1 h2 n v
  show ?thesis by (simp del: Parse.simps)
qed

section \<open>The package on failure\<close>

text \<open>
  Claim C6. \<open>Parse\<close> is not transactional: when it aborts, the package it returns still has
  every document decoded before the point of failure; the package is new and empty at the
  start of each call and is returned on every path.

  Let the results \<open>pre\<close> of \<open>Read()\<close> carry documents only and parse without error. Then on any
  stream that begins with \<open>pre\<close> the package has, in both lists, the values decoded from
  \<open>pre\<close> first. When the next document fails to decode, or the next \<open>Read()\<close> fails, \<open>Parse\<close> returns
  an error together with exactly the package of \<open>pre\<close>. On the empty stream and on the nil
  stream the package is the empty one of \<open>NewPackage\<close>.
\<close>

theorem C6_not_transactional:
  assumes "\<forall>r \<in> set pre. snd r = None"
    and "res_err (Parse dm do (Some \<lparr>reads = pre, annotation = a\<rparr>)) = None"
  shows "prefix (GetMeta (res_pkg (Parse dm do (Some \<lparr>reads = pre, annotation = a\<rparr>))))
           (GetMeta (res_pkg (Parse dm do (Some \<lparr>reads = pre @ rest, annotation = a\<rparr>))))
   \<and> prefix (GetObjects (res_pkg (Parse dm do (Some \<lparr>reads = pre, annotation = a\<rparr>))))
           (GetObjects (res_pkg (Parse dm do (Some \<lparr>reads = pre @ rest, annotation = a\<rparr>))))
   \<and> (\<not> isEmptyYAML d \<and> classify dm do d = Failed e \<longrightarrow>
         res_err (Parse dm do (Some \<lparr>reads = pre @ (d, None) # rest, annotation = a\<rparr>)) \<noteq> None
         \<and> res_pkg (Parse dm do (Some \<lparr>reads = pre @ (d, None) # rest, annotation = a\<rparr>))
             = res_pkg (Parse dm do (Some \<lparr>reads = pre, annotation = a\<rparr>)))
   \<and> (\<not> Is e' EOF \<longrightarrow>
         res_err (Parse dm do (Some \<lparr>reads = pre @ (c, Some e') # rest, annotation = a\<rparr>))
             = Some e'
         \<and> res_pkg (Parse dm do (Some \<lparr>reads = pre @ (c, Some e') # rest, annotation = a\<rparr>))
             = res_pkg (Parse dm do (Some \<lparr>reads = pre, annotation = a\<rparr>)))
   \<and> res_pkg (Parse dm do (Some \<lparr>reads = [], annotation = a\<rparr>)) = NewPackage
   \<and> res_pkg (Parse dm do None) = NewPackage"
proof -
  let ?R = "Parse dm do (Some \<lparr>reads = pre, annotation = a\<rparr>)"
  have run: "parse_loop dm do \<lparr>reads = pre @ rs, annotation = a\<rparr> (pre @ rs) NewPackage [] =
               parse_loop dm do \<lparr>reads = pre @ rs, annotation = a\<rparr> rs (res_pkg ?R) (res_calls ?R)"
    for rs
    using assms by (rule Parse_prefix_run)
  have pkg: "res_pkg (Parse dm do (Some \<lparr>reads = pre @ rs, annotation = a\<rparr>)) =
               fst (parse_loop dm do \<lparr>reads = pre @ rs, annotation = a\<rparr> rs
                      (res_pkg ?R) (res_calls ?R))" for rs
    by (simp add: run del: parse_loop.simps split: prod.splits)
  have err: "res_err (Parse dm do (Some \<lparr>reads = pre @ rs, annotation = a\<rparr>)) =
               fst (snd (parse_loop dm do \<lparr>reads = pre @ rs, annotation = a\<rparr> rs
                      (res_pkg ?R) (res_calls ?R)))" for rs
    by (simp add: run del: parse_loop.simps split: prod.splits)
  define p' where
    "p' = fst (parse_loop dm do \<lparr>reads = pre @ rest, annotation = a\<rparr> rest NewPackage [])"
  have acc:
    "res_pkg (Parse dm do (Some \<lparr>reads = pre @ rest, annotation = a\<rparr>)) =
       \<lparr>meta = meta (res_pkg ?R) @ meta p', objects = objects (res_pkg ?R) @ objects p'\<rparr>"
    unfolding pkg p'_def by (subst parse_loop_acc) (simp split: prod.splits)
  have 1: "prefix (GetMeta (res_pkg ?R))
             (GetMeta (res_pkg (Parse dm do (Some \<lparr>reads = pre @ rest, annotation = a\<rparr>))))"
    unfolding acc GetMeta_def by simp
  have 2: "prefix (GetObjects (res_pkg ?R))
             (GetObjects (res_pkg (Parse dm do (Some \<lparr>reads = pre @ rest, annotation = a\<rparr>))))"
    unfolding acc GetObjects_def by simp
  have 3: "res_err (Parse dm do (Some \<lparr>reads = pre @ (d, None) # rest, annotation = a\<rparr>)) \<noteq> None
         \<and> res_pkg (Parse dm do (Some \<lparr>reads = pre @ (d, None) # rest, annotation = a\<rparr>))
             = res_pkg ?R"
    if "\<not> isEmptyYAML d \<and> classify dm do d = Failed e"
    unfolding pkg err using that
    by (auto simp: classify_def annotateErr_def split: sum.splits if_splits option.splits)
  have 4: "res_err (Parse dm do (Some \<lparr>reads = pre @ (c, Some e') # rest, annotation = a\<rparr>))
             = Some e'
         \<and> res_pkg (Parse dm do (Some \<lparr>reads = pre @ (c, Some e') # rest, annotation = a\<rparr>))
             = res_pkg ?R"
    if "\<not> Is e' EOF"
    unfolding pkg err using that by simp
  have 5: "res_pkg (Parse dm do (Some \<lparr>reads = [], annotation = a\<rparr>)) = NewPackage"
    by simp
  have 6: "res_pkg (Parse dm do None) = NewPackage"
    by simp
  from 1 2 3 4 5 6 show ?thesis by blast
qed

theorem C6_not_transactional_witness:
  "list_all (\<lambda>r. snd r = (None :: error option)) [(''kind: Foo'', None), (''kind: Bar'', None)]
   \<and> res_err (Parse example_meta example_obj
        (Some \<lparr>reads = [(''kind: Foo'', None), (''kind: Bar'', None)], annotation = None\<rparr>))
       = None
   \<and> \<not> isEmptyYAML ''kind: Foo, bad''
   \<and> classify example_meta example_obj ''kind: Foo, bad'' = Failed (otherErr ''malformed'')
   \<and> \<not> Is (otherErr ''connection reset'') EOF
   \<and> res_err (Parse example_meta example_obj
        (Some \<lparr>reads = [(''kind: Foo'', None), (''kind: Bar'', None)]
                         @ (''kind: Foo, bad'', None) # [(''kind: Foo'', None)],
               annotation = None\<rparr>)) \<noteq> None
   \<and> res_pkg (Parse example_meta example_obj
        (Some \<lparr>reads = [(''kind: Foo'', None), (''kind: Bar'', None)]
                         @ (''kind: Foo, bad'', None) # [(''kind: Foo'', None)],
               annotation = None\<rparr>)) = \<lparr>meta = [''Foo''], objects = [''Bar'']\<rparr>
   \<and> res_err (Parse example_meta example_obj
        (Some \<lparr>reads = [(''kind: Foo'', None), (''kind: Bar'', None)]
                         @ ('''', Some (otherErr ''connection reset'')) # [(''kind: Foo'', None)],
               annotation = None\<rparr>)) = Some (otherErr ''connection reset'')
   \<and> res_pkg (Parse example_meta example_obj
        (Some \<lparr>reads = [(''kind: Foo'', None), (''kind: Bar'', None)]
                         @ ('''', Some (otherErr ''connection reset'')) # [(''kind: Foo'', None)],
               annotation = None\<rparr>)) = \<lparr>meta = [''Foo''], objects = [''Bar'']\<rparr>"
proof -
  let ?pre = "[(''kind: Foo'', None), (''kind: Bar'', None)] :: read_result list"
  have h1: "\<forall>r \<in> set ?pre. snd r = None" by simp
  have h2: "res_err (Parse example_meta example_obj
              (Some \<lparr>reads = ?pre, annotation = None\<rparr>)) = None"
    by code_simp
  have h3: "\<not> isEmptyYAML ''kind: Foo, bad''" by code_simp
  have h4: "classify example_meta example_obj ''kind: Foo, bad'' = Failed (otherErr ''malformed'')"
    by code_simp
  have h5: "\<not> Is (otherErr ''connection reset'') EOF" by simp
  have p: "res_pkg (Parse example_meta example_obj
              (Some \<lparr>reads = ?pre, annotation = None\<rparr>)) = \<lparr>meta = [''Foo''], objects = [''Bar'']\<rparr>"
    by code_simp
  from C6_not_transactional [OF h1 h2, of "[(''kind: Foo'', None)]" "''kind: Foo, bad''"
      "otherErr ''malformed''" "otherErr ''connection reset''" "''''"] h3 h4 h5
  have "res_err (Parse example_meta example_obj
        (Some \<lparr>reads = ?pre @ (''kind: Foo, bad'', None) # [(''kind: Foo'', None)],
               annotation = None\<rparr>)) \<noteq> None
   \<and> res_pkg (Parse example_meta example_obj
        (Some \<lparr>reads = ?pre @ (''kind: Foo, bad'', None) # [(''kind: Foo'', None)],
               annotation = None\<rparr>))
       = res_pkg (Parse example_meta example_obj (Some \<lparr>reads = ?pre, annotation = None\<rparr>))
   \<and> res_err (Parse example_meta example_obj
        (Some \<lparr>reads = ?pre @ ('''', Some (otherErr ''connection reset'')) # [(''kind: Foo'', None)],
               annotation = None\<rparr>)) = Some (otherErr ''connection reset'')
   \<and> res_pkg (Parse example_meta example_obj
        (Some \<lparr>reads = ?pre @ ('''', Some (otherErr ''connection reset'')) # [(''kind: Foo'', None)],
               annotation = None\<rparr>))
       = res_pkg (Parse example_meta example_obj (Some \<lparr>reads = ?pre, annotation = None\<rparr>))"
    by blast
  moreover have "list_all (\<lambda>r. snd r = (None :: error option)) ?pre"
    by simp
  ultimately show ?thesis using h2 h3 h4 h5 unfolding p by blast
qed

section \<open>Two parses of the same stream\<close>

text \<open>
  Claim C8. Parsing the same stream twice, each time through a fresh stream, yields two
  packages with the same metadata and object lists in the same order, given the same two
  registries.

  Two readers that give the same results to \<open>Read()\<close>, whatever their annotations, lead
  \<open>Parse\<close> to the same package, list for list, to the same registry calls, and to an error in
  the one parse exactly when in the other.
\<close>

theorem C8_deterministic:
  assumes "reads rd1 = reads rd2"
  shows "res_pkg (Parse dm do (Some rd1)) = res_pkg (Parse dm do (Some rd2))
   \<and> GetMeta (res_pkg (Parse dm do (Some rd1))) = GetMeta (res_pkg (Parse dm do (Some rd2)))
   \<and> GetObjects (res_pkg (Parse dm do (Some rd1)))
       = GetObjects (res_pkg (Parse dm do (Some rd2)))
   \<and> res_calls (Parse dm do (Some rd1)) = res_calls (Parse dm do (Some rd2))
   \<and> (res_err (Parse dm do (Some rd1)) = None \<longleftrightarrow> res_err (Parse dm do (Some rd2)) = None)"
  unfolding Parse_run using assms
  by (simp add: terminal_error_def annotateErr_Some split: option.splits)

theorem C8_deterministic_witness:
  "reads example_reader = reads example_annotated_reader
   \<and> res_pkg (Parse example_meta example_obj (Some example_reader))
       = res_pkg (Parse example_meta example_obj (Some example_annotated_reader))
   \<and> GetMeta (res_pkg (Parse example_meta example_obj (Some example_reader))) = [''Foo'']
   \<and> GetMeta (res_pkg (Parse example_meta example_obj (Some example_annotated_reader)))
       = [''Foo'']"
proof -
  have h: "reads example_reader = reads example_annotated_reader"
    by (simp add: example_reader_def example_annotated_reader_def)
  have m: "GetMeta (res_pkg (Parse example_meta example_obj (Some example_reader))) = [''Foo'']"
    by code_simp
  from C8_deterministic [OF h, of example_meta example_obj] h m show ?thesis
    by simp
qed

section \<open>Blank documents\<close>

lemma isEmptyYAML_lines_all:
  "isEmptyYAML_lines ls \<longleftrightarrow>
     (\<forall>line \<in> set ls.
        TrimLeftFunc line IsSpace = '''' \<or> TrimLeftFunc line IsSpace = ''---''
        \<or> TrimLeftFunc line IsSpace = ''...'' \<or> HasPrefix (TrimLeftFunc line IsSpace) ''#'')"
  by (induction ls) (auto simp: Let_def)

lemma policy_calls_docs:
  "c \<in> set (policy_calls dm do ds) \<Longrightarrow> call_doc c \<in> set ds"
  by (induction ds) (auto split: sum.splits if_splits)

lemma parse_loop_skip_blank:
  "isEmptyYAML d \<Longrightarrow>
     parse_loop dm do rd (pre @ (d, None) # rest) pkg cs = parse_loop dm do rd (pre @ rest) pkg cs"
proof (induction pre arbitrary: pkg cs)
  case Nil
  then show ?case by simp
next
  case (Cons r pre)
  obtain c err where r: "r = (c, err)" by (cases r)
  from Cons show ?case
    unfolding r by (simp split: option.splits sum.splits)
qed

text \<open>
  Claim C5. A document is blank iff every one of its lines, after its leading whitespace
  is trimmed, is empty, the start marker \<open>---\<close>, the end marker \<open>...\<close>, or begins with \<open>#\<close>.
  \<open>Parse\<close> skips a blank document before classification: no call to either registry is on a
  blank document, and a stream parses to the same result, calls included, with a blank
  document at any place as without it. The check is a function of the document alone.
\<close>

theorem C5_blank_documents:
  "(isEmptyYAML y \<longleftrightarrow>
      (\<forall>line \<in> set (Split y (CHR 0x0A)).
         TrimLeftFunc line IsSpace = '''' \<or> TrimLeftFunc line IsSpace = ''---''
         \<or> TrimLeftFunc line IsSpace = ''...'' \<or> HasPrefix (TrimLeftFunc line IsSpace) ''#''))
   \<and> (\<forall>c \<in> set (res_calls (Parse dm do rdo)). \<not> isEmptyYAML (call_doc c))
   \<and> (isEmptyYAML d \<longrightarrow>
        Parse dm do (Some \<lparr>reads = pre @ (d, None) # rest, annotation = a\<rparr>)
          = Parse dm do (Some \<lparr>reads = pre @ rest, annotation = a\<rparr>))"
proof (intro conjI ballI impI)
  show "isEmptyYAML y \<longleftrightarrow>
      (\<forall>line \<in> set (Split y (CHR 0x0A)).
         TrimLeftFunc line IsSpace = '''' \<or> TrimLeftFunc line IsSpace = ''---''
         \<or> TrimLeftFunc line IsSpace = ''...'' \<or> HasPrefix (TrimLeftFunc line IsSpace) ''#'')"
    unfolding isEmptyYAML_def by (rule isEmptyYAML_lines_all)
next
  fix c
  assume c: "c \<in> set (res_calls (Parse dm do rdo))"
  show "\<not> isEmptyYAML (call_doc c)"
  proof (cases rdo)
    case None
    with c show ?thesis by simp
  next
    case (Some rd)
    with c have "c \<in> set (policy_calls dm do (nonblank_docs (reads rd)))"
      unfolding Some Parse_run by simp
    then have "call_doc c \<in> set (nonblank_docs (reads rd))"
      by (rule policy_calls_docs)
    then show ?thesis by (simp add: nonblank_docs_def)
  qed
next
  assume d: "isEmptyYAML d"
  have "parse_loop dm do \<lparr>reads = pre @ (d, None) # rest, annotation = a\<rparr>
          (pre @ (d, None) # rest) NewPackage []
        = parse_loop dm do \<lparr>reads = pre @ (d, None) # rest, annotation = a\<rparr>
          (pre @ rest) NewPackage []"
    using d by (rule parse_loop_skip_blank)
  also have "\<dots> = parse_loop dm do \<lparr>reads = pre @ rest, annotation = a\<rparr>
          (pre @ rest) NewPackage []"
    by (rule parse_loop_annotation) simp
  finally show "Parse dm do (Some \<lparr>reads = pre @ (d, None) # rest, annotation = a\<rparr>)
          = Parse dm do (Some \<lparr>reads = pre @ rest, annotation = a\<rparr>)"
    by (simp del: parse_loop.simps)
qed

theorem C5_blank_documents_witness:
  "isEmptyYAML ''---\<newline>  # only a comment\<newline>\<newline>...''
   \<and> list_all
         (\<lambda>line. TrimLeftFunc line IsSpace = '''' \<or> TrimLeftFunc line IsSpace = ''---''
            \<or> TrimLeftFunc line IsSpace = ''...'' \<or> HasPrefix (TrimLeftFunc line IsSpace) ''#'')
         (Split ''---\<newline>  # only a comment\<newline>\<newline>...'' (CHR 0x0A))
   \<and> MetaDecode ''kind: Bar'' \<in> set (res_calls (Parse example_meta example_obj (Some example_reader)))
   \<and> \<not> isEmptyYAML (call_doc (MetaDecode ''kind: Bar''))
   \<and> Parse example_meta example_obj
        (Some \<lparr>reads = [(''kind: Foo'', None)]
                         @ (''---\<newline>  # only a comment\<newline>\<newline>...'', None) # [(''kind: Bar'', None)],
               annotation = None\<rparr>)
      = Parse example_meta example_obj
        (Some \<lparr>reads = [(''kind: Foo'', None)] @ [(''kind: Bar'', None)], annotation = None\<rparr>)"
proof -
  have h1: "isEmptyYAML ''---\<newline>  # only a comment\<newline>\<newline>...''" by code_simp
  have h2: "MetaDecode ''kind: Bar''
              \<in> set (res_calls (Parse example_meta example_obj (Some example_reader)))"
    by code_simp
  from h1 h2 C5_blank_documents [of "''---\<newline>  # only a comment\<newline>\<newline>...''"
      example_meta example_obj "Some example_reader" "''---\<newline>  # only a comment\<newline>\<newline>...''"
      "[(''kind: Foo'', None)]" "[(''kind: Bar'', None)]" None]
  show ?thesis unfolding list_all_iff by blast
qed

section \<open>Whitespace after a marker\<close>

lemma Split_no_sep: "sep \<notin> set s \<Longrightarrow> Split s sep = [s]"
  by (induction s) auto

lemma IsSpace_ascii:
  "IsSpace 32" "IsSpace 9" "\<not> IsSpace 45" "\<not> IsSpace 46"
  by (simp_all add: IsSpace_def)

lemma TrimLeftFunc_leading_blanks:
  "set ws \<subseteq> {CHR '' '', CHR 0x09} \<Longrightarrow> TrimLeftFunc (ws @ s) IsSpace = TrimLeftFunc s IsSpace"
proof (induction ws)
  case Nil
  show ?case by simp
next
  case (Cons c ws)
  then have "c = CHR '' '' \<or> c = CHR 0x09" by simp
  with Cons show ?case by (auto simp: IsSpace_ascii)
qed

lemma TrimLeftFunc_marker:
  "m = ''---'' \<or> m = ''...'' \<Longrightarrow> TrimLeftFunc (m @ w) IsSpace = m @ w"
  by (auto simp: IsSpace_ascii)

text \<open>
  Claim C10. The filter trims leading whitespace only: a start or end marker followed on
  its line by whitespace makes the document non-blank, and the document goes to the
  registries; blankness is not symmetric in leading and trailing whitespace.

  Let a line of the document be a marker \<open>---\<close> or \<open>...\<close> after leading blanks and tabs \<open>ws\<close> and
  before a non-empty rest \<open>w\<close> of the line, whitespace in particular. Then the document is not
  blank, and \<open>Parse\<close> on a stream of this document begins with a call to the metadata
  registry on it. The marker after the same leading blanks alone is a blank document.
\<close>

theorem C10_trailing_whitespace:
  assumes "line \<in> set (Split y (CHR 0x0A))"
    and "line = ws @ m @ w"
    and "set ws \<subseteq> {CHR '' '', CHR 0x09}"
    and "m = ''---'' \<or> m = ''...''"
    and "w \<noteq> []"
  shows "\<not> isEmptyYAML y
   \<and> (\<exists>cs. res_calls (Parse dm do (Some \<lparr>reads = [(y, None)], annotation = a\<rparr>))
              = MetaDecode y # cs)
   \<and> isEmptyYAML (ws @ m)"
proof -
  have t: "TrimLeftFunc line IsSpace = m @ w"
    unfolding assms(2) using assms(3,4)
    by (simp add: TrimLeftFunc_leading_blanks TrimLeftFunc_marker)
  from assms(4,5) have "m @ w \<noteq> '''' \<and> m @ w \<noteq> ''---'' \<and> m @ w \<noteq> ''...''
      \<and> \<not> HasPrefix (m @ w) ''#''"
    by (auto simp: HasPrefix_def)
  with t have "\<not> (TrimLeftFunc line IsSpace = '''' \<or> TrimLeftFunc line IsSpace = ''---''
      \<or> TrimLeftFunc line IsSpace = ''...'' \<or> HasPrefix (TrimLeftFunc line IsSpace) ''#'')"
    by simp
  with assms(1) have nb: "\<not> isEmptyYAML y"
    unfolding isEmptyYAML_def isEmptyYAML_lines_all by blast
  have calls: "\<exists>cs. res_calls (Parse dm do (Some \<lparr>reads = [(y, None)], annotation = a\<rparr>))
              = MetaDecode y # cs"
    using nb by (simp split: sum.splits)
  from assms(3,4) have "CHR 0x0A \<notin> set (ws @ m)" by auto
  then have "Split (ws @ m) (CHR 0x0A) = [ws @ m]" by (rule Split_no_sep)
  moreover have "TrimLeftFunc (ws @ m) IsSpace = m"
    using assms(3,4) TrimLeftFunc_marker [of m "[]"]
    by (simp add: TrimLeftFunc_leading_blanks)
  ultimately have "isEmptyYAML (ws @ m)"
    using assms(4) by (auto simp: isEmptyYAML_def)
  with nb calls show ?thesis by blast
qed

theorem C10_trailing_whitespace_witness:
  "''--- '' \<in> set (Split ''kind: Foo\<newline>--- '' (CHR 0x0A))
   \<and> ''--- '' = '''' @ ''---'' @ '' ''
   \<and> set '''' \<subseteq> {CHR '' '', CHR 0x09}
   \<and> (''---'' = ''---'' \<or> ''---'' = ''...'')
   \<and> '' '' \<noteq> ''''
   \<and> \<not> isEmptyYAML ''kind: Foo\<newline>--- ''
   \<and> (\<exists>cs. res_calls (Parse example_meta example_obj
                (Some \<lparr>reads = [(''kind: Foo\<newline>--- '', None)], annotation = None\<rparr>))
              = MetaDecode ''kind: Foo\<newline>--- '' # cs)
   \<and> isEmptyYAML ('''' @ ''---'')"
proof -
  have h1: "''--- '' \<in> set (Split ''kind: Foo\<newline>--- '' (CHR 0x0A))" by code_simp
  have h2: "''--- '' = '''' @ ''---'' @ '' ''" by simp
  have h3: "set '''' \<subseteq> {CHR '' '', CHR 0x09}" by simp
  have h4: "''---'' = ''---'' \<or> ''---'' = ''...''" by simp
  have h5: "'' '' \<noteq> ''''" by simp
  from C10_trailing_whitespace [OF h1 h2 h3 h4 h5, of example_meta example_obj None] h1 h2 h3 h4 h5
  show ?thesis by blast
qed

end
